theory Spec2Isabelle
  imports Complex_Main "HOL-Library.Sublist"
begin

section \<open>Data model of scripts/follow_manager.py\<close>

text \<open>
  A Python float by its value: a finite number, an infinity (the parser reads \<^verbatim>\<open>1e999\<close>
  as one) or the parser's \<^verbatim>\<open>NaN\<close> object. Comparison with an integer is exact in
  Python, so the value decides it; what float arithmetic rounds to is left to the runtime
  (see \<open>runtime\<close> below).
\<close>

datatype pyfloat = Finite real | PosInf | NegInf | NaN

text \<open>
  The value that \<^verbatim>\<open>r.json()\<close> returns: \<^verbatim>\<open>None\<close>, a boolean, an integer, a float,
  a string, a list or a dict with string keys. A dict is the association list of its
  items, keys distinct, read with \<open>map_of\<close>.
\<close>

datatype jvalue =
    JNull
  | JBool bool
  | JInt int
  | JFloat pyfloat
  | JStr string
  | JList "jvalue list"
  | JDict "(string \<times> jvalue) list"

text \<open>A Python number that is the result of arithmetic: an \<^verbatim>\<open>int\<close> or a \<^verbatim>\<open>float\<close>.\<close>

datatype pynum = PInt int | PFloat pyfloat

text \<open>The exceptions the script can meet; it catches none of them.\<close>

datatype exn =
    TypeError
  | KeyError
  | JSONDecodeError
  | RequestException
  | ValueError
  | OverflowError
  | OSError

text \<open>
  A \<^verbatim>\<open>requests.Response\<close>: \<^verbatim>\<open>r.status_code\<close>, \<^verbatim>\<open>r.text\<close> and what \<^verbatim>\<open>r.json()\<close>
  gives, \<open>None\<close> when the body does not parse (the call raises).
\<close>

record response =
  status_code :: int
  text_body :: string
  json_body :: "jvalue option"

text \<open>
  The HTTP calls of the script. \<open>Get_page url page\<close> is
  \<^verbatim>\<open>session.get(url, params={"per_page": 100, "page": page})\<close>; the username of a
  follow or unfollow call is the value that was put into the set.
\<close>

datatype request =
    Get_rate_limit
  | Get_page string nat
  | Put_following jvalue
  | Delete_following jvalue

text \<open>
  The remote service answers a request with a response, or the transport raises.
  Within one run no request is issued twice, so a function of the request is as general
  as a scripted sequence of answers.
\<close>

type_synonym http = "request \<Rightarrow> exn + response"

text \<open>The lines the script prints, one constructor per \<^verbatim>\<open>print\<close> statement.\<close>

datatype message =
    Info_api_remaining jvalue
  | Warning_sleeping pynum
  | Error_failed_to_fetch string
  | Info_fetching_followers
  | Info_fetching_following
  | Error_token_not_set
  | Info_users_to_follow nat
  | Info_users_to_unfollow nat
  | Dry_run_would_follow "jvalue list"
  | Dry_run_would_unfollow "jvalue list"
  | Action_following jvalue
  | Success_followed jvalue
  | Action_unfollowing jvalue
  | Success_unfollowed jvalue

text \<open>
  What a run does, in order: an HTTP call, a printed line, \<^verbatim>\<open>time.sleep(n)\<close> of the
  rate-limit guard, and the pacing sleep \<^verbatim>\<open>time.sleep(random.uniform(2, 5))\<close>, whose
  duration the random source chooses.
\<close>

datatype event =
    Call request
  | Print message
  | Sleep pynum
  | Sleep_random

text \<open>
  How a piece of the script ends: it returns a value, an exception leaves it, or the
  iteration budget of the \<^verbatim>\<open>while True\<close> loop is used up (the loop was still
  running). Every piece also yields the events up to that point.
\<close>

datatype 'a outcome = Returned 'a | Raised exn | OutOfFuel

type_synonym 'a io = "event list \<times> 'a outcome"

definition bind_io :: "'a io \<Rightarrow> ('a \<Rightarrow> 'b io) \<Rightarrow> 'b io" where
  "bind_io m f =
     (case m of
        (t, Returned x) \<Rightarrow> (case f x of (t', r) \<Rightarrow> (t @ t', r))
      | (t, Raised e) \<Rightarrow> (t, Raised e)
      | (t, OutOfFuel) \<Rightarrow> (t, OutOfFuel))"

definition print_io :: "message \<Rightarrow> unit io" where
  "print_io m = ([Print m], Returned ())"

definition pure_io :: "exn + 'a \<Rightarrow> 'a io" where
  "pure_io v = (case v of Inl e \<Rightarrow> ([], Raised e) | Inr x \<Rightarrow> ([], Returned x))"

definition session_call :: "http \<Rightarrow> request \<Rightarrow> response io" where
  "session_call srv req =
     (case srv req of
        Inl e \<Rightarrow> ([Call req], Raised e)
      | Inr r \<Rightarrow> ([Call req], Returned r))"

definition response_json :: "response \<Rightarrow> exn + jvalue" where
  "response_json r = (case json_body r of None \<Rightarrow> Inl JSONDecodeError | Some d \<Rightarrow> Inr d)"

subsection \<open>Python operations on the parsed body\<close>

text \<open>\<^verbatim>\<open>v[key]\<close> with a string key: only a dict can be subscripted so.\<close>

fun subscript :: "jvalue \<Rightarrow> string \<Rightarrow> exn + jvalue" where
  "subscript (JDict kvs) key = (case map_of kvs key of None \<Rightarrow> Inl KeyError | Some v \<Rightarrow> Inr v)"
| "subscript _ key = Inl TypeError"

text \<open>
  \<^verbatim>\<open>not v\<close> holds for \<^verbatim>\<open>None\<close>, \<^verbatim>\<open>False\<close>, a zero and the empty string, list and
  dict.
\<close>

fun falsy :: "jvalue \<Rightarrow> bool" where
  "falsy JNull = True"
| "falsy (JBool b) = (\<not> b)"
| "falsy (JInt n) = (n = 0)"
| "falsy (JFloat f) = (f = Finite 0)"
| "falsy (JStr s) = (s = [])"
| "falsy (JList xs) = (xs = [])"
| "falsy (JDict kvs) = (kvs = [])"

text \<open>\<^verbatim>\<open>for user in v\<close>: a list yields its items, a dict its keys, a string its characters.\<close>

fun iterate :: "jvalue \<Rightarrow> exn + jvalue list" where
  "iterate (JList xs) = Inr xs"
| "iterate (JDict kvs) = Inr (map (\<lambda>kv. JStr (fst kv)) kvs)"
| "iterate (JStr s) = Inr (map (\<lambda>c. JStr [c]) s)"
| "iterate _ = Inl TypeError"

text \<open>Lists and dicts cannot be members of a set.\<close>

fun hashable :: "jvalue \<Rightarrow> bool" where
  "hashable (JList xs) = False"
| "hashable (JDict kvs) = False"
| "hashable _ = True"

text \<open>
  \<^verbatim>\<open>users.add(v)\<close> keeps one member for all values that are equal in Python:
  \<^verbatim>\<open>True\<close>, \<^verbatim>\<open>1\<close> and \<^verbatim>\<open>1.0\<close> are one member. The model names the member by the
  integer; the script tells the three apart only in the text it renders from them.
\<close>

fun set_member :: "jvalue \<Rightarrow> jvalue" where
  "set_member (JBool b) = JInt (if b then 1 else 0)"
| "set_member (JFloat (Finite r)) =
     (if of_int \<lfloor>r\<rfloor> = r then JInt \<lfloor>r\<rfloor> else JFloat (Finite r))"
| "set_member v = v"

text \<open>
  What the script needs of the Python runtime beyond the language: \<^verbatim>\<open>time.sleep(w)\<close>
  sleeps and returns (\<open>None\<close>) or raises without sleeping (it refuses a \<^verbatim>\<open>NaN\<close> and a
  wait beyond what the platform's timers take, a limit that depends on the platform and
  on its monotonic clock); and \<^verbatim>\<open>f - n\<close> for a float \<open>f\<close> and an integer \<open>n\<close> gives the
  float that the subtraction rounds to, or raises when \<open>n\<close> is too large for a float.
\<close>

record runtime =
  time_sleep :: "pynum \<Rightarrow> exn option"
  float_minus_int :: "pyfloat \<Rightarrow> int \<Rightarrow> exn + pyfloat"

text \<open>
  \<^verbatim>\<open>v < n\<close> and \<^verbatim>\<open>v - n\<close> for an integer \<open>n\<close>: defined on numbers. A boolean counts as
  the integer 1 or 0.
\<close>

fun float_less_int :: "pyfloat \<Rightarrow> int \<Rightarrow> bool" where
  "float_less_int (Finite r) n = (r < of_int n)"
| "float_less_int PosInf n = False"
| "float_less_int NegInf n = True"
| "float_less_int NaN n = False"

fun less_int :: "jvalue \<Rightarrow> int \<Rightarrow> exn + bool" where
  "less_int (JInt a) n = Inr (a < n)"
| "less_int (JBool b) n = Inr ((if b then 1 else 0) < n)"
| "less_int (JFloat f) n = Inr (float_less_int f n)"
| "less_int _ n = Inl TypeError"

fun minus_int :: "runtime \<Rightarrow> jvalue \<Rightarrow> int \<Rightarrow> exn + pynum" where
  "minus_int rt (JInt a) n = Inr (PInt (a - n))"
| "minus_int rt (JBool b) n = Inr (PInt ((if b then 1 else 0) - n))"
| "minus_int rt (JFloat f) n =
     (case float_minus_int rt f n of Inl e \<Rightarrow> Inl e | Inr d \<Rightarrow> Inr (PFloat d))"
| "minus_int rt _ n = Inl TypeError"

text \<open>\<^verbatim>\<open>max(d, 0)\<close>: \<open>d\<close> itself unless \<^verbatim>\<open>0 > d\<close>, then the integer 0.\<close>

fun max_zero :: "pynum \<Rightarrow> pynum" where
  "max_zero (PInt a) = PInt (max a 0)"
| "max_zero (PFloat f) = (if float_less_int f 0 then PInt 0 else PFloat f)"

definition sleep_io :: "runtime \<Rightarrow> pynum \<Rightarrow> unit io" where
  "sleep_io rt w =
     (case time_sleep rt w of
        None \<Rightarrow> ([Sleep w], Returned ())
      | Some e \<Rightarrow> ([], Raised e))"

text \<open>
  \<^verbatim>\<open>xs[:n]\<close>: the first \<open>n\<close> items, and for a negative \<open>n\<close> all but the last \<open>-n\<close>.
\<close>

definition slice_to :: "'a list \<Rightarrow> int \<Rightarrow> 'a list" where
  "slice_to xs n = (if 0 \<le> n then take (nat n) xs else take (length xs - nat (- n)) xs)"

section \<open>GitHubFollowManager\<close>

definition GITHUB_API :: string where
  "GITHUB_API = ''https://api.github.com''"

subsection \<open>check_rate_limit\<close>

text \<open>
  \<open>now\<close> is \<^verbatim>\<open>int(time.time())\<close>. The status code of the response is not read.
\<close>

definition check_rate_limit :: "runtime \<Rightarrow> http \<Rightarrow> int \<Rightarrow> unit io" where
  "check_rate_limit rt srv now =
     bind_io (session_call srv Get_rate_limit) (\<lambda>r.
     bind_io (pure_io (response_json r)) (\<lambda>data.
     bind_io (pure_io (subscript data ''rate'')) (\<lambda>rate.
     bind_io (pure_io (subscript rate ''remaining'')) (\<lambda>remaining.
     bind_io (pure_io (subscript data ''rate'')) (\<lambda>rate'.
     bind_io (pure_io (subscript rate' ''reset'')) (\<lambda>reset.
     bind_io (print_io (Info_api_remaining remaining)) (\<lambda>_.
     bind_io (pure_io (less_int remaining 5)) (\<lambda>low.
       if low then
         bind_io (pure_io (minus_int rt reset now)) (\<lambda>d.
           let wait_time = max_zero d in
           bind_io (print_io (Warning_sleeping wait_time)) (\<lambda>_.
             sleep_io rt wait_time))
       else ([], Returned ())))))))))"

subsection \<open>get_paginated\<close>

text \<open>The body of \<^verbatim>\<open>for user in data: users.add(user["login"])\<close>.\<close>

fun add_logins :: "jvalue list \<Rightarrow> jvalue set \<Rightarrow> exn + jvalue set" where
  "add_logins [] users = Inr users"
| "add_logins (user # rest) users =
     (case subscript user ''login'' of
        Inl e \<Rightarrow> Inl e
      | Inr login \<Rightarrow>
          if hashable login then add_logins rest (insert (set_member login) users)
          else Inl TypeError)"

text \<open>
  The \<^verbatim>\<open>while True\<close> loop, one iteration per unit of fuel, with the locals \<open>users\<close>
  and \<open>page\<close> as arguments.
\<close>

fun get_paginated_loop :: "nat \<Rightarrow> http \<Rightarrow> string \<Rightarrow> jvalue set \<Rightarrow> nat \<Rightarrow> jvalue set io" where
  "get_paginated_loop 0 srv url users page = ([], OutOfFuel)"
| "get_paginated_loop (Suc fuel) srv url users page =
     bind_io (session_call srv (Get_page url page)) (\<lambda>r.
       if status_code r \<noteq> 200 then
         bind_io (print_io (Error_failed_to_fetch (text_body r))) (\<lambda>_. ([], Returned users))
       else
         bind_io (pure_io (response_json r)) (\<lambda>data.
           if falsy data then ([], Returned users)
           else
             bind_io (pure_io (iterate data)) (\<lambda>items.
             bind_io (pure_io (add_logins items users)) (\<lambda>users'.
               get_paginated_loop fuel srv url users' (page + 1)))))"

definition get_paginated :: "nat \<Rightarrow> http \<Rightarrow> string \<Rightarrow> jvalue set io" where
  "get_paginated fuel srv url = get_paginated_loop fuel srv url {} 1"

definition get_followers :: "nat \<Rightarrow> http \<Rightarrow> jvalue set io" where
  "get_followers fuel srv =
     bind_io (print_io Info_fetching_followers) (\<lambda>_.
       get_paginated fuel srv (GITHUB_API @ ''/user/followers''))"

definition get_following :: "nat \<Rightarrow> http \<Rightarrow> jvalue set io" where
  "get_following fuel srv =
     bind_io (print_io Info_fetching_following) (\<lambda>_.
       get_paginated fuel srv (GITHUB_API @ ''/user/following''))"

subsection \<open>follow_user, unfollow_user\<close>

definition follow_user :: "http \<Rightarrow> jvalue \<Rightarrow> bool io" where
  "follow_user srv username =
     bind_io (session_call srv (Put_following username)) (\<lambda>r.
       ([], Returned (status_code r = 204)))"

definition unfollow_user :: "http \<Rightarrow> jvalue \<Rightarrow> bool io" where
  "unfollow_user srv username =
     bind_io (session_call srv (Delete_following username)) (\<lambda>r.
       ([], Returned (status_code r = 204)))"

section \<open>main\<close>

datatype mode = DryRun | Execute

record args =
  mode :: mode
  max_follows :: int
  max_unfollows :: int

text \<open>
  What a run reads from outside: the variable \<^verbatim>\<open>GITHUB_TOKEN\<close> (\<open>None\<close> when unset),
  the remote service, the clock, the order in which \<^verbatim>\<open>list(s)\<close> yields the members
  of a set, and the Python runtime.
\<close>

record env =
  github_token :: "string option"
  server :: http
  clock :: int
  set_order :: "jvalue set \<Rightarrow> jvalue list"
  python :: runtime

text \<open>Lines 91 and 92: the two capped candidate lists.\<close>

definition reconcile ::
  "(jvalue set \<Rightarrow> jvalue list) \<Rightarrow> jvalue set \<Rightarrow> jvalue set \<Rightarrow> int \<Rightarrow> int \<Rightarrow> jvalue list \<times> jvalue list"
where
  "reconcile as_list followers following maxFollow maxUnfollow =
     (slice_to (as_list (followers - following)) maxFollow,
      slice_to (as_list (following - followers)) maxUnfollow)"

text \<open>The two \<^verbatim>\<open>for\<close> loops of execute mode.\<close>

fun follow_loop :: "http \<Rightarrow> jvalue list \<Rightarrow> unit io" where
  "follow_loop srv [] = ([], Returned ())"
| "follow_loop srv (user # rest) =
     bind_io (print_io (Action_following user)) (\<lambda>_.
     bind_io (follow_user srv user) (\<lambda>ok.
     bind_io (if ok then print_io (Success_followed user) else ([], Returned ())) (\<lambda>_.
     bind_io ([Sleep_random], Returned ()) (\<lambda>_.
       follow_loop srv rest))))"

fun unfollow_loop :: "http \<Rightarrow> jvalue list \<Rightarrow> unit io" where
  "unfollow_loop srv [] = ([], Returned ())"
| "unfollow_loop srv (user # rest) =
     bind_io (print_io (Action_unfollowing user)) (\<lambda>_.
     bind_io (unfollow_user srv user) (\<lambda>ok.
     bind_io (if ok then print_io (Success_unfollowed user) else ([], Returned ())) (\<lambda>_.
     bind_io ([Sleep_random], Returned ()) (\<lambda>_.
       unfollow_loop srv rest))))"

text \<open>\<^verbatim>\<open>not token\<close>: the variable is unset or empty.\<close>

definition token_missing :: "string option \<Rightarrow> bool" where
  "token_missing t = (case t of None \<Rightarrow> True | Some s \<Rightarrow> s = [])"

definition main :: "nat \<Rightarrow> env \<Rightarrow> args \<Rightarrow> unit io" where
  "main fuel e a =
     (if token_missing (github_token e) then print_io Error_token_not_set
      else
        bind_io (check_rate_limit (python e) (server e) (clock e)) (\<lambda>_.
        bind_io (get_followers fuel (server e)) (\<lambda>followers.
        bind_io (get_following fuel (server e)) (\<lambda>following.
          case reconcile (set_order e) followers following (max_follows a) (max_unfollows a) of
            (to_follow, to_unfollow) \<Rightarrow>
              bind_io (print_io (Info_users_to_follow (length to_follow))) (\<lambda>_.
              bind_io (print_io (Info_users_to_unfollow (length to_unfollow))) (\<lambda>_.
                if mode a = DryRun then
                  bind_io (print_io (Dry_run_would_follow to_follow)) (\<lambda>_.
                    print_io (Dry_run_would_unfollow to_unfollow))
                else
                  bind_io (follow_loop (server e) to_follow) (\<lambda>_.
                    unfollow_loop (server e) to_unfollow)))))))"


section \<open>Vocabulary of the properties\<close>

text \<open>\<^verbatim>\<open>list(s)\<close> yields every member of \<open>s\<close>, each once.\<close>

definition enumerates :: "('a set \<Rightarrow> 'a list) \<Rightarrow> 'a set \<Rightarrow> bool" where
  "enumerates as_list S = (set (as_list S) = S \<and> distinct (as_list S))"

text \<open>The HTTP calls of a run, in order, and among them the follow and unfollow calls.\<close>

fun is_mutation :: "request \<Rightarrow> bool" where
  "is_mutation (Put_following u) = True"
| "is_mutation (Delete_following u) = True"
| "is_mutation _ = False"

definition calls :: "event list \<Rightarrow> request list" where
  "calls t = [req. Call req \<leftarrow> t]"

definition mutations :: "event list \<Rightarrow> request list" where
  "mutations t = filter is_mutation (calls t)"

text \<open>The values that are numbers in Python: integers, booleans and floats.\<close>

fun is_number :: "jvalue \<Rightarrow> bool" where
  "is_number (JInt a) = True"
| "is_number (JBool b) = True"
| "is_number (JFloat f) = True"
| "is_number _ = False"

text \<open>The status of the answer to a request, \<open>None\<close> when the transport raises.\<close>

definition reply_status :: "http \<Rightarrow> request \<Rightarrow> int option" where
  "reply_status srv req = (case srv req of Inl x \<Rightarrow> None | Inr r \<Rightarrow> Some (status_code r))"

text \<open>
  A successful page: status 200 and a non-empty JSON list whose entries each carry a
  \<^verbatim>\<open>login\<close> that can be a set member. \<open>page_logins\<close> are the logins that occur in it.
\<close>

definition entry_login :: "jvalue \<Rightarrow> jvalue option" where
  "entry_login u =
     (case subscript u ''login'' of
        Inl x \<Rightarrow> None
      | Inr v \<Rightarrow> if hashable v then Some (set_member v) else None)"

fun logins :: "jvalue list \<Rightarrow> jvalue list" where
  "logins [] = []"
| "logins (u # us) = (case entry_login u of None \<Rightarrow> logins us | Some v \<Rightarrow> v # logins us)"

definition page_entries :: "response \<Rightarrow> jvalue list" where
  "page_entries r = (case json_body r of Some (JList items) \<Rightarrow> items | _ \<Rightarrow> [])"

definition successful_page :: "response \<Rightarrow> bool" where
  "successful_page r =
     (status_code r = 200 \<and> json_body r = Some (JList (page_entries r)) \<and>
      page_entries r \<noteq> [] \<and> list_all (\<lambda>u. entry_login u \<noteq> None) (page_entries r))"

definition empty_page :: "response \<Rightarrow> bool" where
  "empty_page r = (status_code r = 200 \<and> json_body r = Some (JList []))"

definition page_logins :: "response \<Rightarrow> jvalue set" where
  "page_logins r = set (logins (page_entries r))"

text \<open>The requests for the pages \<open>first\<close>, \<open>first + 1\<close>, ..., \<open>n\<close> of them.\<close>

definition page_calls :: "string \<Rightarrow> nat \<Rightarrow> nat \<Rightarrow> event list" where
  "page_calls url first n = map (\<lambda>p. Call (Get_page url p)) [first..<first + n]"

section \<open>Example services and runs\<close>

definition followers_url :: string where
  "followers_url = GITHUB_API @ ''/user/followers''"

definition following_url :: string where
  "following_url = GITHUB_API @ ''/user/following''"

definition user_entry :: "string \<Rightarrow> jvalue" where
  "user_entry name = JDict [(''login'', JStr name), (''id'', JInt 1)]"

definition rate_body :: "jvalue \<Rightarrow> jvalue \<Rightarrow> jvalue" where
  "rate_body remaining reset =
     JDict [(''rate'', JDict [(''limit'', JInt 5000), (''remaining'', remaining), (''reset'', reset)])]"

definition ok_page :: "jvalue \<Rightarrow> response" where
  "ok_page d = \<lparr>status_code = 200, text_body = [], json_body = Some d\<rparr>"

definition no_content :: "int \<Rightarrow> response" where
  "no_content code = \<lparr>status_code = code, text_body = [], json_body = None\<rparr>"

text \<open>
  An example runtime: \<^verbatim>\<open>time.sleep\<close> takes a wait below 9223372036 seconds, and the
  float subtraction is the exact one (its result needs no rounding in the examples).
\<close>

fun example_sleep :: "pynum \<Rightarrow> exn option" where
  "example_sleep (PInt n) =
     (if n < 0 then Some ValueError else if n < 9223372036 then None else Some OverflowError)"
| "example_sleep (PFloat (Finite r)) =
     (if r < 0 then Some ValueError else if r < 9223372036 then None else Some OverflowError)"
| "example_sleep (PFloat PosInf) = Some OverflowError"
| "example_sleep (PFloat NegInf) = Some ValueError"
| "example_sleep (PFloat NaN) = Some ValueError"

fun example_float_minus_int :: "pyfloat \<Rightarrow> int \<Rightarrow> exn + pyfloat" where
  "example_float_minus_int (Finite r) n = Inr (Finite (r - of_int n))"
| "example_float_minus_int f n = Inr f"

definition example_runtime :: runtime where
  "example_runtime =
     \<lparr>time_sleep = example_sleep, float_minus_int = example_float_minus_int\<rparr>"

text \<open>A service that answers the rate-limit inspection only.\<close>

definition rate_limit_server :: "response \<Rightarrow> http" where
  "rate_limit_server r req = (case req of Get_rate_limit \<Rightarrow> Inr r | _ \<Rightarrow> Inl RequestException)"


definition far_reset_response :: response where
  "far_reset_response = ok_page (rate_body (JInt 0) (JInt 1700000000000))"

definition fractional_reset_response :: response where
  "fractional_reset_response = ok_page (rate_body (JInt 1) (JFloat (Finite 1010.5)))"

definition fractional_remaining_response :: response where
  "fractional_remaining_response = ok_page (rate_body (JFloat (Finite 4.5)) (JInt 1010))"

definition server_error_with_quota :: response where
  "server_error_with_quota =
     \<lparr>status_code = 500, text_body = [], json_body = Some (rate_body (JInt 10) (JInt 0))\<rparr>"

text \<open>
  Followers on the pages \<open>{alice, bob}, {carol}, {}\<close>, following on \<open>{bob, dave}, {}\<close>;
  following alice succeeds, following anyone else is answered 404, unfollowing succeeds.
\<close>

definition example_server :: http where
  "example_server req =
     (case req of
        Get_rate_limit \<Rightarrow> Inr (ok_page (rate_body (JInt 4000) (JInt 2000)))
      | Get_page url page \<Rightarrow>
          if url = followers_url then
            (if page = 1 then Inr (ok_page (JList [user_entry ''alice'', user_entry ''bob'']))
             else if page = 2 then Inr (ok_page (JList [user_entry ''carol'']))
             else Inr (ok_page (JList [])))
          else
            (if page = 1 then Inr (ok_page (JList [user_entry ''bob'', user_entry ''dave'']))
             else Inr (ok_page (JList [])))
      | Put_following u \<Rightarrow> Inr (no_content (if u = JStr ''alice'' then 204 else 404))
      | Delete_following u \<Rightarrow> Inr (no_content 204))"

text \<open>The pages \<open>{alice}, <500 error>\<close>.\<close>

definition error_500 :: response where
  "error_500 = \<lparr>status_code = 500, text_body = ''Server Error'', json_body = None\<rparr>"

definition failing_server :: http where
  "failing_server req =
     (case req of
        Get_page url page \<Rightarrow>
          if page = 1 then Inr (ok_page (JList [user_entry ''alice''])) else Inr error_500
      | _ \<Rightarrow> Inl RequestException)"

text \<open>A set order: the members of the set in the order of a fixed list of all names.\<close>

definition listed_order :: "jvalue list \<Rightarrow> jvalue set \<Rightarrow> jvalue list" where
  "listed_order universe S = filter (\<lambda>x. x \<in> S) universe"

definition example_order :: "jvalue set \<Rightarrow> jvalue list" where
  "example_order = listed_order [JStr ''alice'', JStr ''bob'', JStr ''carol'', JStr ''dave'']"

definition example_followers :: "jvalue set" where
  "example_followers = {JStr ''alice'', JStr ''bob'', JStr ''carol''}"

definition example_following :: "jvalue set" where
  "example_following = {JStr ''bob'', JStr ''dave''}"

definition example_env :: env where
  "example_env =
     \<lparr>github_token = Some ''token'', server = example_server, clock = 1000,
      set_order = example_order, python = example_runtime\<rparr>"

definition no_token_env :: env where
  "no_token_env = example_env\<lparr>github_token := None\<rparr>"

definition execute_args :: args where
  "execute_args = \<lparr>mode = Execute, max_follows = 5, max_unfollows = 5\<rparr>"

definition dry_run_args :: args where
  "dry_run_args = \<lparr>mode = DryRun, max_follows = 5, max_unfollows = 5\<rparr>"


section \<open>The reconciliation step\<close>

lemma set_slice_to: "set (slice_to xs n) \<subseteq> set xs"
  by (auto simp: slice_to_def dest: in_set_takeD)

lemma length_slice_to_nat: "length (slice_to xs (int n)) \<le> n"
  by (simp add: slice_to_def)

lemma example_differences:
  "example_followers - example_following = {JStr ''alice'', JStr ''carol''}"
  "example_following - example_followers = {JStr ''dave''}"
  by (auto simp: example_followers_def example_following_def)

lemma example_order_follow:
  "example_order (example_followers - example_following) = [JStr ''alice'', JStr ''carol'']"
  by (simp add: example_differences example_order_def listed_order_def)

lemma example_order_unfollow:
  "example_order (example_following - example_followers) = [JStr ''dave'']"
  by (simp add: example_differences example_order_def listed_order_def)

lemma example_enumerates_follow:
  "enumerates example_order (example_followers - example_following)"
  by (simp add: enumerates_def example_order_follow) (simp add: example_differences)

lemma example_enumerates_unfollow:
  "enumerates example_order (example_following - example_followers)"
  by (simp add: enumerates_def example_order_unfollow) (simp add: example_differences)

text \<open>
  C1. For sets \<open>F\<close> (followers) and \<open>G\<close> (following) that \<^verbatim>\<open>list\<close> enumerates, and caps
  that are natural numbers, every element of \<open>to_follow\<close> is in \<open>F\<close> and not in \<open>G\<close>,
  every element of \<open>to_unfollow\<close> is in \<open>G\<close> and not in \<open>F\<close>, and the two lists are no
  longer than their caps.
\<close>

theorem reconcile_within_differences_and_caps:
  assumes "enumerates as_list (F - G)" and "enumerates as_list (G - F)"
  shows "set (fst (reconcile as_list F G (int maxFollow) (int maxUnfollow))) \<subseteq> F - G \<and>
         set (snd (reconcile as_list F G (int maxFollow) (int maxUnfollow))) \<subseteq> G - F \<and>
         length (fst (reconcile as_list F G (int maxFollow) (int maxUnfollow))) \<le> maxFollow \<and>
         length (snd (reconcile as_list F G (int maxFollow) (int maxUnfollow))) \<le> maxUnfollow"
  using assms set_slice_to[of "as_list (F - G)" "int maxFollow"]
    set_slice_to[of "as_list (G - F)" "int maxUnfollow"]
  by (simp add: reconcile_def enumerates_def length_slice_to_nat)

theorem reconcile_within_differences_and_caps_witness:
  "enumerates example_order (example_followers - example_following) \<and>
   enumerates example_order (example_following - example_followers) \<and>
   fst (reconcile example_order example_followers example_following (int 1) (int 5)) =
     [JStr ''alice''] \<and>
   set (fst (reconcile example_order example_followers example_following (int 1) (int 5)))
     \<subseteq> example_followers - example_following \<and>
   set (snd (reconcile example_order example_followers example_following (int 1) (int 5)))
     \<subseteq> example_following - example_followers \<and>
   length (fst (reconcile example_order example_followers example_following (int 1) (int 5)))
     \<le> 1 \<and>
   length (snd (reconcile example_order example_followers example_following (int 1) (int 5)))
     \<le> 5"
proof -
  have c: "fst (reconcile example_order example_followers example_following (int 1) (int 5)) =
             [JStr ''alice'']"
    by (simp add: reconcile_def example_order_follow slice_to_def)
  show ?thesis
    using example_enumerates_follow example_enumerates_unfollow c
      reconcile_within_differences_and_caps
        [OF example_enumerates_follow example_enumerates_unfollow, of 1 5]
    by simp
qed

text \<open>
  C10. Whatever the caps (negative ones too), no identifier is in both \<open>to_follow\<close> and
  \<open>to_unfollow\<close>.
\<close>

theorem reconcile_lists_disjoint:
  assumes "enumerates as_list (F - G)" and "enumerates as_list (G - F)"
  shows "set (fst (reconcile as_list F G maxFollow maxUnfollow)) \<inter>
         set (snd (reconcile as_list F G maxFollow maxUnfollow)) = {}"
proof -
  have "set (fst (reconcile as_list F G maxFollow maxUnfollow)) \<subseteq> F - G"
    using assms(1) set_slice_to[of "as_list (F - G)" maxFollow]
    by (simp add: reconcile_def enumerates_def)
  moreover have "set (snd (reconcile as_list F G maxFollow maxUnfollow)) \<subseteq> G - F"
    using assms(2) set_slice_to[of "as_list (G - F)" maxUnfollow]
    by (simp add: reconcile_def enumerates_def)
  ultimately show ?thesis by blast
qed

theorem reconcile_lists_disjoint_witness:
  "enumerates example_order (example_followers - example_following) \<and>
   enumerates example_order (example_following - example_followers) \<and>
   reconcile example_order example_followers example_following 5 (- 1) =
     ([JStr ''alice'', JStr ''carol''], []) \<and>
   set (fst (reconcile example_order example_followers example_following 5 (- 1))) \<inter>
   set (snd (reconcile example_order example_followers example_following 5 (- 1))) = {}"
proof -
  have c: "reconcile example_order example_followers example_following 5 (- 1) =
             ([JStr ''alice'', JStr ''carol''], [])"
    by (simp add: reconcile_def example_order_follow example_order_unfollow slice_to_def)
  show ?thesis
    using example_enumerates_follow example_enumerates_unfollow c
      reconcile_lists_disjoint
        [OF example_enumerates_follow example_enumerates_unfollow, of 5 "- 1"]
    by simp
qed


section \<open>Sequencing\<close>

lemma bind_io_Returned: "bind_io (t, Returned x) f = (t @ fst (f x), snd (f x))"
  by (simp add: bind_io_def split: prod.splits)

lemma bind_io_Raised: "bind_io (t, Raised x) f = (t, Raised x)"
  by (simp add: bind_io_def)

lemma bind_io_OutOfFuel: "bind_io (t, OutOfFuel) f = (t, OutOfFuel)"
  by (simp add: bind_io_def)

lemmas bind_io_simps = bind_io_Returned bind_io_Raised bind_io_OutOfFuel

lemma bind_print_io: "bind_io (print_io m) f = (Print m # fst (f ()), snd (f ()))"
  by (simp add: print_io_def bind_io_simps)

lemma bind_pure_io_Inr: "bind_io (pure_io (Inr x)) f = f x"
  by (simp add: pure_io_def bind_io_simps)

lemma bind_pure_io_Inl: "bind_io (pure_io (Inl x)) f = ([], Raised x)"
  by (simp add: pure_io_def bind_io_simps)

lemma bind_session_call_Inr:
  "srv req = Inr r \<Longrightarrow> bind_io (session_call srv req) f = (Call req # fst (f r), snd (f r))"
  by (simp add: session_call_def bind_io_simps)

lemma bind_session_call_Inl:
  "srv req = Inl x \<Longrightarrow> bind_io (session_call srv req) f = ([Call req], Raised x)"
  by (simp add: session_call_def bind_io_simps)

lemmas io_simps = bind_io_simps bind_print_io bind_pure_io_Inr bind_pure_io_Inl

lemma bind_io_after_Returned:
  "snd m = Returned x \<Longrightarrow> bind_io m f = (fst m @ fst (f x), snd (f x))"
  by (cases m) (simp add: bind_io_simps)

lemma bind_io_after_Raised: "snd m = Raised x \<Longrightarrow> bind_io m f = (fst m, Raised x)"
  by (cases m) (simp add: bind_io_simps)

lemma bind_io_after_OutOfFuel: "snd m = OutOfFuel \<Longrightarrow> bind_io m f = (fst m, OutOfFuel)"
  by (cases m) (simp add: bind_io_simps)

lemma fst_bind_io:
  "fst (bind_io m f) = fst m @ (case snd m of Returned x \<Rightarrow> fst (f x) | _ \<Rightarrow> [])"
  by (cases m; cases "snd m") (auto simp: bind_io_simps)

section \<open>The rate-limit guard\<close>

lemma less_int_Inr_number: "less_int v n = Inr b \<Longrightarrow> is_number v"
  by (cases v) simp_all

lemma less_int_Inl_number: "less_int v n = Inl x \<Longrightarrow> \<not> is_number v"
  by (cases v) simp_all




text \<open>
  A wait that \<^verbatim>\<open>time.sleep\<close> refuses: its exception leaves the guard after the warning
  line, and nothing is slept. With the example runtime, a reset 1698300000000 seconds
  ahead is such a wait.
\<close>

lemma check_rate_limit_sleep_refused:
  assumes "srv Get_rate_limit = Inr r"
    and "json_body r = Some data"
    and "subscript data ''rate'' = Inr rate"
    and "subscript rate ''remaining'' = Inr (JInt remaining)"
    and "subscript rate ''reset'' = Inr (JInt reset)"
    and "remaining < 5"
    and "time_sleep rt (PInt (max (reset - now) 0)) = Some x"
  shows "check_rate_limit rt srv now =
           ([Call Get_rate_limit, Print (Info_api_remaining (JInt remaining)),
             Print (Warning_sleeping (PInt (max (reset - now) 0)))],
            Raised x)"
  using assms
  by (simp add: check_rate_limit_def bind_session_call_Inr response_json_def io_simps Let_def
      sleep_io_def)

lemma far_reset_is_refused:
  "check_rate_limit example_runtime (rate_limit_server far_reset_response) 1700000000 =
     ([Call Get_rate_limit, Print (Info_api_remaining (JInt 0)),
       Print (Warning_sleeping (PInt 1698300000000))],
      Raised OverflowError)"
  by (simp add: check_rate_limit_def rate_limit_server_def far_reset_response_def ok_page_def
      rate_body_def bind_session_call_Inr response_json_def io_simps Let_def sleep_io_def
      example_runtime_def)

text \<open>Floats are numbers to the guard: a fractional reset and a fractional remaining.\<close>

lemma fractional_reset_sleeps:
  "check_rate_limit example_runtime (rate_limit_server fractional_reset_response) 1000 =
     ([Call Get_rate_limit, Print (Info_api_remaining (JInt 1)),
       Print (Warning_sleeping (PFloat (Finite 10.5))), Sleep (PFloat (Finite 10.5))],
      Returned ())"
  by (simp add: check_rate_limit_def rate_limit_server_def fractional_reset_response_def
      ok_page_def rate_body_def bind_session_call_Inr response_json_def io_simps Let_def
      sleep_io_def example_runtime_def)

lemma fractional_remaining_sleeps:
  "check_rate_limit example_runtime (rate_limit_server fractional_remaining_response) 1000 =
     ([Call Get_rate_limit, Print (Info_api_remaining (JFloat (Finite 4.5))),
       Print (Warning_sleeping (PInt 10)), Sleep (PInt 10)],
      Returned ())"
  by (simp add: check_rate_limit_def rate_limit_server_def fractional_remaining_response_def
      ok_page_def rate_body_def bind_session_call_Inr response_json_def io_simps Let_def
      sleep_io_def example_runtime_def)

text \<open>
  C6, as stated, fails: a response with status 500 whose body carries the rate object
  makes the check return normally.
\<close>

theorem check_rate_limit_ignores_status_counterexample:
  "\<not> (200 \<le> status_code server_error_with_quota \<and> status_code server_error_with_quota < 300) \<and>
   check_rate_limit example_runtime (rate_limit_server server_error_with_quota) 0 =
     ([Call Get_rate_limit, Print (Info_api_remaining (JInt 10))], Returned ())"
  by (simp add: check_rate_limit_def rate_limit_server_def server_error_with_quota_def
      rate_body_def bind_session_call_Inr response_json_def io_simps)

text \<open>
  C6, amended. Whatever the status of the response, the check raises exactly when the body
  is not JSON, \<^verbatim>\<open>data["rate"]["remaining"]\<close> or \<^verbatim>\<open>data["rate"]["reset"]\<close> cannot be
  read, \<open>remaining\<close> is not a number (an integer, a boolean or a float), or
  \<open>remaining < 5\<close> and the wait cannot be slept: \<^verbatim>\<open>reset - now\<close> raises (\<open>reset\<close> is not a
  number, or the float subtraction overflows) or \<^verbatim>\<open>time.sleep\<close> refuses the wait.
\<close>

theorem check_rate_limit_raises_iff:
  assumes "srv Get_rate_limit = Inr r"
  shows "(\<exists>x. snd (check_rate_limit rt srv now) = Raised x) \<longleftrightarrow>
         \<not> (\<exists>data rate remaining reset.
               json_body r = Some data \<and> subscript data ''rate'' = Inr rate \<and>
               subscript rate ''remaining'' = Inr remaining \<and>
               subscript rate ''reset'' = Inr reset \<and>
               is_number remaining \<and>
               (less_int remaining 5 = Inr True \<longrightarrow>
                  (\<exists>d. minus_int rt reset now = Inr d \<and> time_sleep rt (max_zero d) = None)))"
proof (cases "json_body r")
  case None
  then show ?thesis using assms
    by (simp add: check_rate_limit_def bind_session_call_Inr response_json_def io_simps)
next
  case (Some data)
  show ?thesis
  proof (cases "subscript data ''rate''")
    case (Inl x)
    then show ?thesis using assms Some
      by (simp add: check_rate_limit_def bind_session_call_Inr response_json_def io_simps)
  next
    case rate: (Inr rate)
    show ?thesis
    proof (cases "subscript rate ''remaining''")
      case (Inl x)
      then show ?thesis using assms Some rate
        by (simp add: check_rate_limit_def bind_session_call_Inr response_json_def io_simps)
    next
      case rem: (Inr remaining)
      show ?thesis
      proof (cases "subscript rate ''reset''")
        case (Inl x)
        then show ?thesis using assms Some rate rem
          by (simp add: check_rate_limit_def bind_session_call_Inr response_json_def io_simps)
      next
        case rst: (Inr reset)
        show ?thesis
        proof (cases "less_int remaining 5")
          case (Inl x)
          then show ?thesis
            using assms Some rate rem rst less_int_Inl_number[of remaining 5 x]
            by (simp add: check_rate_limit_def bind_session_call_Inr response_json_def io_simps)
        next
          case low: (Inr low)
          have num: "is_number remaining"
            using low by (rule less_int_Inr_number)
          show ?thesis
          proof (cases low)
            case False
            then show ?thesis
              using assms Some rate rem rst low num
              by (simp add: check_rate_limit_def bind_session_call_Inr response_json_def
                  io_simps)
          next
            case True
            show ?thesis
            proof (cases "minus_int rt reset now")
              case (Inl x)
              then show ?thesis
                using assms Some rate rem rst low num True
                by (simp add: check_rate_limit_def bind_session_call_Inr response_json_def
                    io_simps)
            next
              case d: (Inr d)
              show ?thesis
              proof (cases "time_sleep rt (max_zero d)")
                case None
                then show ?thesis
                  using assms Some rate rem rst low num True d
                  by (simp add: check_rate_limit_def bind_session_call_Inr response_json_def
                      io_simps Let_def sleep_io_def)
              next
                case (Some x)
                then show ?thesis
                  using assms \<open>json_body r = Some data\<close> rate rem rst low num True d
                  by (simp add: check_rate_limit_def bind_session_call_Inr response_json_def
                      io_simps Let_def sleep_io_def)
              qed
            qed
          qed
        qed
      qed
    qed
  qed
qed

theorem check_rate_limit_raises_iff_witness:
  "rate_limit_server error_500 Get_rate_limit = Inr error_500 \<and>
   json_body error_500 = None \<and>
   (\<exists>x. snd (check_rate_limit example_runtime (rate_limit_server error_500) 1000) = Raised x)"
proof -
  have a: "rate_limit_server error_500 Get_rate_limit = Inr error_500"
    by (simp add: rate_limit_server_def)
  have b: "json_body error_500 = None"
    by (simp add: error_500_def)
  show ?thesis
    using a b
      check_rate_limit_raises_iff
        [of "rate_limit_server error_500" error_500 example_runtime 1000]
    by simp
qed

section \<open>The paginated fetch\<close>

lemma add_logins_all:
  "list_all (\<lambda>u. entry_login u \<noteq> None) items \<Longrightarrow>
   add_logins items users = Inr (users \<union> set (logins items))"
proof (induction items arbitrary: users)
  case Nil
  then show ?case by simp
next
  case (Cons u us)
  then show ?case
    by (auto simp: entry_login_def split: sum.splits if_splits)
qed

lemma loop_successful_page:
  assumes "srv (Get_page url page) = Inr r" and "successful_page r"
  shows "get_paginated_loop (Suc fuel) srv url users page =
           (Call (Get_page url page) #
              fst (get_paginated_loop fuel srv url (users \<union> page_logins r) (Suc page)),
            snd (get_paginated_loop fuel srv url (users \<union> page_logins r) (Suc page)))"
proof -
  from assms(2) have s: "status_code r = 200" and j: "json_body r = Some (JList (page_entries r))"
    and n: "page_entries r \<noteq> []" and l: "list_all (\<lambda>u. entry_login u \<noteq> None) (page_entries r)"
    by (simp_all add: successful_page_def)
  show ?thesis
    using assms(1) s j n add_logins_all[OF l, of users]
    by (simp add: bind_session_call_Inr response_json_def io_simps page_logins_def)
qed

lemma loop_walk:
  assumes "\<forall>i<length rs. srv (Get_page url (page + i)) = Inr (rs ! i)"
    and "\<forall>r\<in>set rs. successful_page r"
  shows "get_paginated_loop (length rs + fuel) srv url users page =
           (page_calls url page (length rs) @
              fst (get_paginated_loop fuel srv url (users \<union> (\<Union>r\<in>set rs. page_logins r))
                     (page + length rs)),
            snd (get_paginated_loop fuel srv url (users \<union> (\<Union>r\<in>set rs. page_logins r))
                   (page + length rs)))"
  using assms
proof (induction rs arbitrary: users page)
  case Nil
  then show ?case by (simp add: page_calls_def)
next
  case (Cons r rs)
  have here: "srv (Get_page url page) = Inr r"
    using Cons.prems(1) by force
  have rest: "\<forall>i<length rs. srv (Get_page url (Suc page + i)) = Inr (rs ! i)"
    using Cons.prems(1) by force
  have good: "successful_page r" "\<forall>r\<in>set rs. successful_page r"
    using Cons.prems(2) by simp_all
  have first: "page_calls url page (Suc (length rs)) =
                 Call (Get_page url page) # page_calls url (Suc page) (length rs)"
    by (simp add: page_calls_def upt_rec)
  have un: "users \<union> page_logins r \<union> (\<Union>r\<in>set rs. page_logins r) =
            users \<union> (\<Union>r\<in>set (r # rs). page_logins r)"
    by auto
  show ?case
    using loop_successful_page[of srv url page r "length rs + fuel" users]
      Cons.IH[where page = "Suc page" and users = "users \<union> page_logins r"]
      here rest good first un
    by simp
qed

lemma loop_empty_page:
  assumes "srv (Get_page url page) = Inr r" and "status_code r = 200"
    and "json_body r = Some d" and "falsy d"
  shows "get_paginated_loop (Suc fuel) srv url users page =
           ([Call (Get_page url page)], Returned users)"
  using assms by (simp add: bind_session_call_Inr response_json_def io_simps)

lemma loop_error_page:
  assumes "srv (Get_page url page) = Inr r" and "status_code r \<noteq> 200"
  shows "get_paginated_loop (Suc fuel) srv url users page =
           ([Call (Get_page url page), Print (Error_failed_to_fetch (text_body r))],
            Returned users)"
  using assms by (simp add: bind_session_call_Inr response_json_def io_simps)

text \<open>
  C3. When the pages \<open>1, ..., n\<close> are successful and page \<open>n + 1\<close> is empty, the fetch
  (with fuel for more than \<open>n\<close> iterations) requests the pages \<open>1, ..., n + 1\<close> in this
  order, then returns exactly the logins that occur in the pages \<open>1, ..., n\<close>.
\<close>

theorem get_paginated_stops_at_empty_page:
  assumes "\<forall>i<length rs. srv (Get_page url (Suc i)) = Inr (rs ! i)"
    and "\<forall>r\<in>set rs. successful_page r"
    and "srv (Get_page url (Suc (length rs))) = Inr final"
    and "empty_page final"
    and "length rs < fuel"
  shows "get_paginated fuel srv url =
           (page_calls url 1 (Suc (length rs)), Returned (\<Union>r\<in>set rs. page_logins r))"
proof -
  obtain k where k: "fuel = length rs + Suc k"
    using assms(5) less_iff_Suc_add by auto
  have pages: "\<forall>i<length rs. srv (Get_page url (1 + i)) = Inr (rs ! i)"
    using assms(1) by simp
  have stop: "get_paginated_loop (Suc k) srv url (\<Union>r\<in>set rs. page_logins r) (1 + length rs) =
                ([Call (Get_page url (1 + length rs))], Returned (\<Union>r\<in>set rs. page_logins r))"
    using assms(3,4) loop_empty_page[of srv url "1 + length rs" final "JList []" k]
    by (simp add: empty_page_def)
  show ?thesis
    using loop_walk[of rs srv url 1 "Suc k" "{}"] pages assms(2) stop k
    by (simp add: get_paginated_def page_calls_def)
qed

theorem get_paginated_stops_at_empty_page_witness:
  "get_paginated 3 example_server followers_url =
     ([Call (Get_page followers_url 1), Call (Get_page followers_url 2),
       Call (Get_page followers_url 3)],
      Returned {JStr ''alice'', JStr ''bob'', JStr ''carol''})"
proof -
  let ?rs = "[ok_page (JList [user_entry ''alice'', user_entry ''bob'']),
              ok_page (JList [user_entry ''carol''])]"
  have a: "\<forall>i<length ?rs. example_server (Get_page followers_url (Suc i)) = Inr (?rs ! i)"
    by (simp add: example_server_def less_Suc_eq)
  have b: "\<forall>r\<in>set ?rs. successful_page r"
    by (simp add: successful_page_def page_entries_def ok_page_def user_entry_def entry_login_def)
  have c: "example_server (Get_page followers_url (Suc (length ?rs))) = Inr (ok_page (JList []))"
    by (simp add: example_server_def)
  have d: "empty_page (ok_page (JList []))"
    by (simp add: empty_page_def ok_page_def)
  have e: "(\<Union>r\<in>set ?rs. page_logins r) = {JStr ''alice'', JStr ''bob'', JStr ''carol''}"
    by (simp add: page_logins_def page_entries_def ok_page_def user_entry_def entry_login_def
        insert_commute)
  have f: "page_calls followers_url 1 (Suc (length ?rs)) =
             [Call (Get_page followers_url 1), Call (Get_page followers_url 2),
              Call (Get_page followers_url 3)]"
    by (simp add: page_calls_def upt_rec)
  show ?thesis
    using get_paginated_stops_at_empty_page
      [of ?rs example_server followers_url "ok_page (JList [])" 3] a b c d
    by (simp only: e f) simp
qed

text \<open>
  C4. When the pages \<open>1, ..., n\<close> are successful and page \<open>n + 1\<close> has a status other
  than 200, the fetch (with fuel for more than \<open>n\<close> iterations) requests the pages
  \<open>1, ..., n + 1\<close>, prints the body of the failed response and returns the logins of the
  pages \<open>1, ..., n\<close>; it does not raise.
\<close>

theorem get_paginated_stops_at_error_page:
  assumes "\<forall>i<length rs. srv (Get_page url (Suc i)) = Inr (rs ! i)"
    and "\<forall>r\<in>set rs. successful_page r"
    and "srv (Get_page url (Suc (length rs))) = Inr failed"
    and "status_code failed \<noteq> 200"
    and "length rs < fuel"
  shows "get_paginated fuel srv url =
           (page_calls url 1 (Suc (length rs)) @
              [Print (Error_failed_to_fetch (text_body failed))],
            Returned (\<Union>r\<in>set rs. page_logins r))"
proof -
  obtain k where k: "fuel = length rs + Suc k"
    using assms(5) less_iff_Suc_add by auto
  have pages: "\<forall>i<length rs. srv (Get_page url (1 + i)) = Inr (rs ! i)"
    using assms(1) by simp
  have stop: "get_paginated_loop (Suc k) srv url (\<Union>r\<in>set rs. page_logins r) (1 + length rs) =
                ([Call (Get_page url (1 + length rs)),
                  Print (Error_failed_to_fetch (text_body failed))],
                 Returned (\<Union>r\<in>set rs. page_logins r))"
    using assms(3,4) loop_error_page[of srv url "1 + length rs" failed k] by simp
  show ?thesis
    using loop_walk[of rs srv url 1 "Suc k" "{}"] pages assms(2) stop k
    by (simp add: get_paginated_def page_calls_def)
qed

theorem get_paginated_stops_at_error_page_witness:
  "get_paginated 2 failing_server followers_url =
     ([Call (Get_page followers_url 1), Call (Get_page followers_url 2),
       Print (Error_failed_to_fetch ''Server Error'')],
      Returned {JStr ''alice''})"
proof -
  let ?rs = "[ok_page (JList [user_entry ''alice''])]"
  have a: "\<forall>i<length ?rs. failing_server (Get_page followers_url (Suc i)) = Inr (?rs ! i)"
    by (simp add: failing_server_def)
  have b: "\<forall>r\<in>set ?rs. successful_page r"
    by (simp add: successful_page_def page_entries_def ok_page_def user_entry_def entry_login_def)
  have c: "failing_server (Get_page followers_url (Suc (length ?rs))) = Inr error_500"
    by (simp add: failing_server_def)
  have d: "status_code error_500 \<noteq> 200" "text_body error_500 = ''Server Error''"
    by (simp_all add: error_500_def)
  have e: "(\<Union>r\<in>set ?rs. page_logins r) = {JStr ''alice''}"
    by (simp add: page_logins_def page_entries_def ok_page_def user_entry_def entry_login_def)
  have f: "page_calls followers_url 1 (Suc (length ?rs)) =
             [Call (Get_page followers_url 1), Call (Get_page followers_url 2)]"
    by (simp add: page_calls_def upt_rec)
  show ?thesis
    using get_paginated_stops_at_error_page
      [of ?rs failing_server followers_url error_500 2] a b c d
    by (simp only: e f) simp
qed


section \<open>Follow and unfollow calls of a run\<close>

lemma calls_simps:
  "calls [] = []"
  "calls (Call req # t) = req # calls t"
  "calls (Print m # t) = calls t"
  "calls (Sleep n # t) = calls t"
  "calls (Sleep_random # t) = calls t"
  "calls (s @ t) = calls s @ calls t"
  by (simp_all add: calls_def)

lemma mutations_simps:
  "mutations [] = []"
  "mutations (Call req # t) = (if is_mutation req then req # mutations t else mutations t)"
  "mutations (Print m # t) = mutations t"
  "mutations (Sleep n # t) = mutations t"
  "mutations (Sleep_random # t) = mutations t"
  "mutations (s @ t) = mutations s @ mutations t"
  by (simp_all add: mutations_def calls_simps)

lemma mutations_bind_io:
  assumes "mutations (fst m) = []" and "\<And>x. mutations (fst (f x)) = []"
  shows "mutations (fst (bind_io m f)) = []"
  using assms by (simp add: fst_bind_io mutations_simps split: outcome.splits)

lemma mutations_print_io: "mutations (fst (print_io m)) = []"
  by (simp add: print_io_def mutations_simps)

lemma mutations_pure_io: "mutations (fst (pure_io v)) = []"
  by (simp add: pure_io_def mutations_simps split: sum.splits)

lemma mutations_session_call:
  "\<not> is_mutation req \<Longrightarrow> mutations (fst (session_call srv req)) = []"
  by (simp add: session_call_def mutations_simps split: sum.splits)

lemma mutations_sleep_io: "mutations (fst (sleep_io rt w)) = []"
  by (simp add: sleep_io_def mutations_simps split: option.splits)

lemma mutations_check_rate_limit: "mutations (fst (check_rate_limit rt srv now)) = []"
  unfolding check_rate_limit_def Let_def
  by (intro mutations_bind_io mutations_print_io mutations_pure_io mutations_session_call)
     (simp_all add: mutations_simps mutations_bind_io mutations_print_io mutations_pure_io
        mutations_sleep_io)

lemma mutations_get_paginated_loop:
  "mutations (fst (get_paginated_loop fuel srv url users page)) = []"
proof (induction fuel arbitrary: users page)
  case 0
  show ?case by (simp add: mutations_simps)
next
  case (Suc fuel)
  show ?case
    unfolding get_paginated_loop.simps
    by (intro mutations_bind_io mutations_print_io mutations_pure_io mutations_session_call)
       (simp_all add: mutations_simps mutations_bind_io mutations_print_io mutations_pure_io
          Suc.IH)
qed

lemma mutations_get_followers: "mutations (fst (get_followers fuel srv)) = []"
  by (simp add: get_followers_def get_paginated_def mutations_bind_io mutations_print_io
      mutations_get_paginated_loop)

lemma mutations_get_following: "mutations (fst (get_following fuel srv)) = []"
  by (simp add: get_following_def get_paginated_def mutations_bind_io mutations_print_io
      mutations_get_paginated_loop)

lemma mutations_main_dry_run:
  assumes "mode a = DryRun"
  shows "mutations (fst (main fuel e a)) = []"
  unfolding main_def using assms
  by (auto intro!: mutations_bind_io mutations_print_io mutations_check_rate_limit
      mutations_get_followers mutations_get_following split: prod.splits)

subsection \<open>The two loops of execute mode\<close>

lemma follow_loop_Inr:
  "srv (Put_following u) = Inr r \<Longrightarrow>
   follow_loop srv (u # rest) =
     ([Print (Action_following u), Call (Put_following u)] @
      (if status_code r = 204 then [Print (Success_followed u)] else []) @
      Sleep_random # fst (follow_loop srv rest),
      snd (follow_loop srv rest))"
  by (simp add: follow_user_def bind_session_call_Inr io_simps)

lemma follow_loop_Inl:
  "srv (Put_following u) = Inl x \<Longrightarrow>
   follow_loop srv (u # rest) = ([Print (Action_following u), Call (Put_following u)], Raised x)"
  by (simp add: follow_user_def bind_session_call_Inl io_simps)

lemma unfollow_loop_Inr:
  "srv (Delete_following u) = Inr r \<Longrightarrow>
   unfollow_loop srv (u # rest) =
     ([Print (Action_unfollowing u), Call (Delete_following u)] @
      (if status_code r = 204 then [Print (Success_unfollowed u)] else []) @
      Sleep_random # fst (unfollow_loop srv rest),
      snd (unfollow_loop srv rest))"
  by (simp add: unfollow_user_def bind_session_call_Inr io_simps)

lemma unfollow_loop_Inl:
  "srv (Delete_following u) = Inl x \<Longrightarrow>
   unfollow_loop srv (u # rest) =
     ([Print (Action_unfollowing u), Call (Delete_following u)], Raised x)"
  by (simp add: unfollow_user_def bind_session_call_Inl io_simps)

lemma follow_loop_answered:
  assumes "\<forall>u\<in>set us. reply_status srv (Put_following u) \<noteq> None"
  shows "follow_loop srv us =
           (concat (map (\<lambda>u. [Print (Action_following u), Call (Put_following u)] @
                          (if reply_status srv (Put_following u) = Some 204
                           then [Print (Success_followed u)] else []) @
                          [Sleep_random]) us),
            Returned ())"
  using assms
proof (induction us)
  case Nil
  show ?case by simp
next
  case (Cons u us)
  from Cons.prems obtain r where r: "srv (Put_following u) = Inr r"
    by (auto simp: reply_status_def split: sum.splits)
  have rest: "\<forall>u\<in>set us. reply_status srv (Put_following u) \<noteq> None"
    using Cons.prems by simp
  show ?case
    using follow_loop_Inr[of srv u r us] r Cons.IH[OF rest]
    by (simp add: reply_status_def del: follow_loop.simps)
qed

lemma unfollow_loop_answered:
  assumes "\<forall>u\<in>set us. reply_status srv (Delete_following u) \<noteq> None"
  shows "unfollow_loop srv us =
           (concat (map (\<lambda>u. [Print (Action_unfollowing u), Call (Delete_following u)] @
                          (if reply_status srv (Delete_following u) = Some 204
                           then [Print (Success_unfollowed u)] else []) @
                          [Sleep_random]) us),
            Returned ())"
  using assms
proof (induction us)
  case Nil
  show ?case by simp
next
  case (Cons u us)
  from Cons.prems obtain r where r: "srv (Delete_following u) = Inr r"
    by (auto simp: reply_status_def split: sum.splits)
  have rest: "\<forall>u\<in>set us. reply_status srv (Delete_following u) \<noteq> None"
    using Cons.prems by simp
  show ?case
    using unfollow_loop_Inr[of srv u r us] r Cons.IH[OF rest]
    by (simp add: reply_status_def del: unfollow_loop.simps)
qed

lemma follow_loop_mutations:
  "(snd (follow_loop srv us) = Returned () \<longrightarrow>
      mutations (fst (follow_loop srv us)) = map Put_following us) \<and>
   prefix (mutations (fst (follow_loop srv us))) (map Put_following us)"
proof (induction us)
  case Nil
  show ?case by (simp add: mutations_simps)
next
  case (Cons u us)
  show ?case
  proof (cases "srv (Put_following u)")
    case (Inl x)
    then show ?thesis
      by (simp add: follow_loop_Inl mutations_simps del: follow_loop.simps)
  next
    case (Inr r)
    then show ?thesis
      using Cons.IH by (simp add: follow_loop_Inr mutations_simps del: follow_loop.simps)
  qed
qed

lemma unfollow_loop_mutations:
  "(snd (unfollow_loop srv us) = Returned () \<longrightarrow>
      mutations (fst (unfollow_loop srv us)) = map Delete_following us) \<and>
   prefix (mutations (fst (unfollow_loop srv us))) (map Delete_following us)"
proof (induction us)
  case Nil
  show ?case by (simp add: mutations_simps)
next
  case (Cons u us)
  show ?case
  proof (cases "srv (Delete_following u)")
    case (Inl x)
    then show ?thesis
      by (simp add: unfollow_loop_Inl mutations_simps del: unfollow_loop.simps)
  next
    case (Inr r)
    then show ?thesis
      using Cons.IH by (simp add: unfollow_loop_Inr mutations_simps del: unfollow_loop.simps)
  qed
qed

section \<open>Runs of main\<close>

text \<open>A run that passes the guard and both fetches, up to the candidate lists.\<close>

lemma main_reaches_candidates:
  assumes "\<not> token_missing (github_token e)"
    and "check_rate_limit (python e) (server e) (clock e) = (t1, Returned ())"
    and "get_followers fuel (server e) = (t2, Returned followers)"
    and "get_following fuel (server e) = (t3, Returned following)"
    and "reconcile (set_order e) followers following (max_follows a) (max_unfollows a) =
           (to_follow, to_unfollow)"
  shows "main fuel e a =
           (t1 @ t2 @ t3 @
            [Print (Info_users_to_follow (length to_follow)),
             Print (Info_users_to_unfollow (length to_unfollow))] @
            (if mode a = DryRun
             then [Print (Dry_run_would_follow to_follow),
                   Print (Dry_run_would_unfollow to_unfollow)]
             else fst (bind_io (follow_loop (server e) to_follow)
                               (\<lambda>_. unfollow_loop (server e) to_unfollow))),
            if mode a = DryRun then Returned ()
            else snd (bind_io (follow_loop (server e) to_follow)
                              (\<lambda>_. unfollow_loop (server e) to_unfollow)))"
  using assms by (simp add: main_def io_simps print_io_def)

subsection \<open>The example run\<close>

lemma urls_differ: "followers_url \<noteq> following_url"
  by (simp add: followers_url_def following_url_def)

lemma example_token: "\<not> token_missing (github_token example_env)"
  by (simp add: example_env_def token_missing_def)

lemma example_rate_check:
  "check_rate_limit (python example_env) (server example_env) (clock example_env) =
     ([Call Get_rate_limit, Print (Info_api_remaining (JInt 4000))], Returned ())"
  by (simp add: example_env_def check_rate_limit_def example_server_def ok_page_def
      rate_body_def bind_session_call_Inr response_json_def io_simps)

lemma example_followers_pages:
  "get_paginated 3 example_server followers_url =
     ([Call (Get_page followers_url 1), Call (Get_page followers_url 2),
       Call (Get_page followers_url 3)],
      Returned {JStr ''alice'', JStr ''bob'', JStr ''carol''})"
  by (simp add: get_paginated_def eval_nat_numeral example_server_def ok_page_def user_entry_def
      bind_session_call_Inr response_json_def io_simps insert_commute)

lemma example_following_pages:
  "get_paginated 3 example_server following_url =
     ([Call (Get_page following_url 1), Call (Get_page following_url 2)],
      Returned {JStr ''bob'', JStr ''dave''})"
  using urls_differ
  by (simp add: get_paginated_def eval_nat_numeral example_server_def ok_page_def user_entry_def
      bind_session_call_Inr response_json_def io_simps insert_commute)

lemma example_get_followers:
  "get_followers 3 (server example_env) =
     ([Print Info_fetching_followers, Call (Get_page followers_url 1),
       Call (Get_page followers_url 2), Call (Get_page followers_url 3)],
      Returned example_followers)"
  using example_followers_pages
  by (simp add: example_env_def get_followers_def bind_print_io followers_url_def
      example_followers_def)

lemma example_get_following:
  "get_following 3 (server example_env) =
     ([Print Info_fetching_following, Call (Get_page following_url 1),
       Call (Get_page following_url 2)],
      Returned example_following)"
  using example_following_pages
  by (simp add: example_env_def get_following_def bind_print_io following_url_def
      example_following_def)

lemma example_reconcile:
  "reconcile (set_order example_env) example_followers example_following 5 5 =
     ([JStr ''alice'', JStr ''carol''], [JStr ''dave''])"
  by (simp add: example_env_def reconcile_def example_order_follow example_order_unfollow
      slice_to_def)

lemma example_replies:
  "reply_status (server example_env) (Put_following (JStr ''alice'')) = Some 204"
  "reply_status (server example_env) (Put_following (JStr ''carol'')) = Some 404"
  "reply_status (server example_env) (Delete_following (JStr ''dave'')) = Some 204"
  by (simp_all add: example_env_def reply_status_def example_server_def no_content_def)


subsection \<open>Missing token\<close>

text \<open>
  C8. When \<^verbatim>\<open>GITHUB_TOKEN\<close> is absent, the run prints the error and returns; it makes
  no HTTP call.
\<close>

theorem missing_token_stops_before_any_call:
  assumes "github_token e = None"
  shows "main fuel e a = ([Print Error_token_not_set], Returned ()) \<and>
         calls (fst (main fuel e a)) = []"
  using assms by (simp add: main_def token_missing_def print_io_def calls_simps)

theorem missing_token_stops_before_any_call_witness:
  "github_token no_token_env = None \<and>
   main 3 no_token_env execute_args = ([Print Error_token_not_set], Returned ()) \<and>
   calls (fst (main 3 no_token_env execute_args)) = []"
proof -
  have a: "github_token no_token_env = None"
    by (simp add: no_token_env_def)
  show ?thesis
    using a missing_token_stops_before_any_call[OF a, of 3 execute_args]
    by (simp add: calls_simps)
qed

subsection \<open>Dry-run mode\<close>

text \<open>
  C2. In dry-run mode a run makes no follow and no unfollow call, whatever the service
  answers and however far the run gets; a run that passes the guard and both fetches
  prints the two counts and the two candidate lists, and returns.
\<close>

theorem dry_run_makes_no_mutation_call:
  assumes "mode a = DryRun"
  shows "mutations (fst (main fuel e a)) = [] \<and>
         (\<not> token_missing (github_token e) \<and>
          check_rate_limit (python e) (server e) (clock e) = (t1, Returned ()) \<and>
          get_followers fuel (server e) = (t2, Returned followers) \<and>
          get_following fuel (server e) = (t3, Returned following) \<and>
          reconcile (set_order e) followers following (max_follows a) (max_unfollows a) =
            (to_follow, to_unfollow) \<longrightarrow>
          main fuel e a =
            (t1 @ t2 @ t3 @
             [Print (Info_users_to_follow (length to_follow)),
              Print (Info_users_to_unfollow (length to_unfollow)),
              Print (Dry_run_would_follow to_follow),
              Print (Dry_run_would_unfollow to_unfollow)],
             Returned ()))"
proof (intro conjI impI)
  show "mutations (fst (main fuel e a)) = []"
    using assms by (rule mutations_main_dry_run)
next
  assume "\<not> token_missing (github_token e) \<and>
          check_rate_limit (python e) (server e) (clock e) = (t1, Returned ()) \<and>
          get_followers fuel (server e) = (t2, Returned followers) \<and>
          get_following fuel (server e) = (t3, Returned following) \<and>
          reconcile (set_order e) followers following (max_follows a) (max_unfollows a) =
            (to_follow, to_unfollow)"
  then show "main fuel e a =
            (t1 @ t2 @ t3 @
             [Print (Info_users_to_follow (length to_follow)),
              Print (Info_users_to_unfollow (length to_unfollow)),
              Print (Dry_run_would_follow to_follow),
              Print (Dry_run_would_unfollow to_unfollow)],
             Returned ())"
    using assms
      main_reaches_candidates[of e t1 fuel t2 followers t3 following a to_follow to_unfollow]
    by simp
qed

theorem dry_run_makes_no_mutation_call_witness:
  "mode dry_run_args = DryRun \<and>
   mutations (fst (main 3 example_env dry_run_args)) = [] \<and>
   main 3 example_env dry_run_args =
     ([Call Get_rate_limit, Print (Info_api_remaining (JInt 4000)),
       Print Info_fetching_followers, Call (Get_page followers_url 1),
       Call (Get_page followers_url 2), Call (Get_page followers_url 3),
       Print Info_fetching_following, Call (Get_page following_url 1),
       Call (Get_page following_url 2),
       Print (Info_users_to_follow 2), Print (Info_users_to_unfollow 1),
       Print (Dry_run_would_follow [JStr ''alice'', JStr ''carol'']),
       Print (Dry_run_would_unfollow [JStr ''dave''])],
      Returned ())"
proof -
  have m: "mode dry_run_args = DryRun"
    by (simp add: dry_run_args_def)
  have r: "reconcile (set_order example_env) example_followers example_following
             (max_follows dry_run_args) (max_unfollows dry_run_args) =
             ([JStr ''alice'', JStr ''carol''], [JStr ''dave''])"
    using example_reconcile by (simp add: dry_run_args_def)
  show ?thesis
    using dry_run_makes_no_mutation_call[OF m, of 3 example_env
        "[Call Get_rate_limit, Print (Info_api_remaining (JInt 4000))]"
        "[Print Info_fetching_followers, Call (Get_page followers_url 1),
          Call (Get_page followers_url 2), Call (Get_page followers_url 3)]"
        example_followers
        "[Print Info_fetching_following, Call (Get_page following_url 1),
          Call (Get_page following_url 2)]"
        example_following "[JStr ''alice'', JStr ''carol'']" "[JStr ''dave'']"]
      m example_token example_rate_check example_get_followers example_get_following r
    by (simp add: mutations_simps)
qed

subsection \<open>Execute mode\<close>

text \<open>
  C7. In a run in execute mode that passes the guard and both fetches and whose follow and
  unfollow calls are all answered, every identifier of \<open>to_follow\<close>, then of
  \<open>to_unfollow\<close>, gets its action line, its call, the success line exactly when the
  answer has status 204 and nothing otherwise, and the pacing sleep; the run goes on to
  the next identifier in both cases and returns at the end.
\<close>

theorem execute_mode_outcome_of_each_action:
  assumes "mode a = Execute"
    and "\<not> token_missing (github_token e)"
    and "check_rate_limit (python e) (server e) (clock e) = (t1, Returned ())"
    and "get_followers fuel (server e) = (t2, Returned followers)"
    and "get_following fuel (server e) = (t3, Returned following)"
    and "reconcile (set_order e) followers following (max_follows a) (max_unfollows a) =
           (to_follow, to_unfollow)"
    and "\<forall>u\<in>set to_follow. reply_status (server e) (Put_following u) \<noteq> None"
    and "\<forall>u\<in>set to_unfollow. reply_status (server e) (Delete_following u) \<noteq> None"
  shows "main fuel e a =
           (t1 @ t2 @ t3 @
            [Print (Info_users_to_follow (length to_follow)),
             Print (Info_users_to_unfollow (length to_unfollow))] @
            concat (map (\<lambda>u. [Print (Action_following u), Call (Put_following u)] @
                           (if reply_status (server e) (Put_following u) = Some 204
                            then [Print (Success_followed u)] else []) @
                           [Sleep_random]) to_follow) @
            concat (map (\<lambda>u. [Print (Action_unfollowing u), Call (Delete_following u)] @
                           (if reply_status (server e) (Delete_following u) = Some 204
                            then [Print (Success_unfollowed u)] else []) @
                           [Sleep_random]) to_unfollow),
            Returned ())"
  using main_reaches_candidates[OF assms(2-6)] assms(1)
    follow_loop_answered[OF assms(7)] unfollow_loop_answered[OF assms(8)]
  by (simp add: bind_io_simps)

theorem execute_mode_outcome_of_each_action_witness:
  "mode execute_args = Execute \<and>
   main 3 example_env execute_args =
     ([Call Get_rate_limit, Print (Info_api_remaining (JInt 4000)),
       Print Info_fetching_followers, Call (Get_page followers_url 1),
       Call (Get_page followers_url 2), Call (Get_page followers_url 3),
       Print Info_fetching_following, Call (Get_page following_url 1),
       Call (Get_page following_url 2),
       Print (Info_users_to_follow 2), Print (Info_users_to_unfollow 1),
       Print (Action_following (JStr ''alice'')), Call (Put_following (JStr ''alice'')),
       Print (Success_followed (JStr ''alice'')), Sleep_random,
       Print (Action_following (JStr ''carol'')), Call (Put_following (JStr ''carol'')),
       Sleep_random,
       Print (Action_unfollowing (JStr ''dave'')), Call (Delete_following (JStr ''dave'')),
       Print (Success_unfollowed (JStr ''dave'')), Sleep_random],
      Returned ())"
proof -
  have m: "mode execute_args = Execute"
    by (simp add: execute_args_def)
  have r: "reconcile (set_order example_env) example_followers example_following
             (max_follows execute_args) (max_unfollows execute_args) =
             ([JStr ''alice'', JStr ''carol''], [JStr ''dave''])"
    using example_reconcile by (simp add: execute_args_def)
  have p: "\<forall>u\<in>set [JStr ''alice'', JStr ''carol''].
             reply_status (server example_env) (Put_following u) \<noteq> None"
    by (simp add: example_replies)
  have d: "\<forall>u\<in>set [JStr ''dave''].
             reply_status (server example_env) (Delete_following u) \<noteq> None"
    by (simp add: example_replies)
  show ?thesis
    using execute_mode_outcome_of_each_action
      [OF m example_token example_rate_check example_get_followers example_get_following r p d]
      m
    by (simp add: example_replies)
qed

text \<open>
  C9. In a run in execute mode that passes the guard and both fetches, the follow and
  unfollow calls made are an initial part of: the follow calls for \<open>to_follow\<close> in list
  order, then the unfollow calls for \<open>to_unfollow\<close> in list order; and they are all of
  them when the run returns.
\<close>

theorem execute_mode_follows_before_unfollows:
  assumes "mode a = Execute"
    and "\<not> token_missing (github_token e)"
    and "check_rate_limit (python e) (server e) (clock e) = (t1, Returned ())"
    and "get_followers fuel (server e) = (t2, Returned followers)"
    and "get_following fuel (server e) = (t3, Returned following)"
    and "reconcile (set_order e) followers following (max_follows a) (max_unfollows a) =
           (to_follow, to_unfollow)"
  shows "prefix (mutations (fst (main fuel e a)))
           (map Put_following to_follow @ map Delete_following to_unfollow) \<and>
         (snd (main fuel e a) = Returned () \<longrightarrow>
            mutations (fst (main fuel e a)) =
              map Put_following to_follow @ map Delete_following to_unfollow)"
proof -
  have n1: "mutations t1 = []"
    using mutations_check_rate_limit[of "python e" "server e" "clock e"] assms(3) by simp
  have n2: "mutations t2 = []"
    using mutations_get_followers[of fuel "server e"] assms(4) by simp
  have n3: "mutations t3 = []"
    using mutations_get_following[of fuel "server e"] assms(5) by simp
  let ?acts = "bind_io (follow_loop (server e) to_follow)
                 (\<lambda>_. unfollow_loop (server e) to_unfollow)"
  have m: "mutations (fst (main fuel e a)) = mutations (fst ?acts)"
    and s: "snd (main fuel e a) = snd ?acts"
    using main_reaches_candidates[OF assms(2-6)] assms(1) n1 n2 n3
    by (simp_all add: mutations_simps)
  have acts: "prefix (mutations (fst ?acts))
                (map Put_following to_follow @ map Delete_following to_unfollow) \<and>
              (snd ?acts = Returned () \<longrightarrow>
                 mutations (fst ?acts) =
                   map Put_following to_follow @ map Delete_following to_unfollow)"
  proof (cases "snd (follow_loop (server e) to_follow)")
    case (Returned u)
    then have b: "?acts = (fst (follow_loop (server e) to_follow) @
                            fst (unfollow_loop (server e) to_unfollow),
                          snd (unfollow_loop (server e) to_unfollow))"
      by (rule bind_io_after_Returned)
    show ?thesis
      using follow_loop_mutations[of "server e" to_follow]
        unfollow_loop_mutations[of "server e" to_unfollow] Returned
      by (simp add: b mutations_simps)
  next
    case (Raised x)
    then have b: "?acts = (fst (follow_loop (server e) to_follow), Raised x)"
      by (rule bind_io_after_Raised)
    show ?thesis
      using follow_loop_mutations[of "server e" to_follow]
      by (simp add: b prefix_prefix)
  next
    case OutOfFuel
    then have b: "?acts = (fst (follow_loop (server e) to_follow), OutOfFuel)"
      by (rule bind_io_after_OutOfFuel)
    show ?thesis
      using follow_loop_mutations[of "server e" to_follow]
      by (simp add: b prefix_prefix)
  qed
  show ?thesis
    using acts by (simp add: m s)
qed


lemma example_execute_returns: "snd (main 3 example_env execute_args) = Returned ()"
proof -
  have r: "reconcile (set_order example_env) example_followers example_following
             (max_follows execute_args) (max_unfollows execute_args) =
             ([JStr ''alice'', JStr ''carol''], [JStr ''dave''])"
    using example_reconcile by (simp add: execute_args_def)
  have p: "\<forall>u\<in>set [JStr ''alice'', JStr ''carol''].
             reply_status (server example_env) (Put_following u) \<noteq> None"
    by (simp add: example_replies)
  have d: "\<forall>u\<in>set [JStr ''dave''].
             reply_status (server example_env) (Delete_following u) \<noteq> None"
    by (simp add: example_replies)
  show ?thesis
    using main_reaches_candidates
      [OF example_token example_rate_check example_get_followers example_get_following r]
      follow_loop_answered[OF p] unfollow_loop_answered[OF d]
    by (simp add: execute_args_def bind_io_simps del: follow_loop.simps unfollow_loop.simps)
qed

theorem execute_mode_follows_before_unfollows_witness:
  "mode execute_args = Execute \<and>
   snd (main 3 example_env execute_args) = Returned () \<and>
   mutations (fst (main 3 example_env execute_args)) =
     [Put_following (JStr ''alice''), Put_following (JStr ''carol''),
      Delete_following (JStr ''dave'')]"
proof -
  have m: "mode execute_args = Execute"
    by (simp add: execute_args_def)
  have r: "reconcile (set_order example_env) example_followers example_following
             (max_follows execute_args) (max_unfollows execute_args) =
             ([JStr ''alice'', JStr ''carol''], [JStr ''dave''])"
    using example_reconcile by (simp add: execute_args_def)
  show ?thesis
    using execute_mode_follows_before_unfollows
      [OF m example_token example_rate_check example_get_followers example_get_following r]
      m example_execute_returns
    by simp
qed

end
